theory Spec2Isabelle
  imports Main
begin

section \<open>MeetingWorkspace.tsx: values derived from the published insights\<close>

text \<open>
  The component keeps \<^verbatim>\<open>phi3Insights\<close>, the last insight result handed to
  \<^verbatim>\<open>setPhi3Insights\<close>, or \<^verbatim>\<open>null\<close> before the first one. Its type is declared in
  \<^verbatim>\<open>@/integrations/phi3/phi3Config\<close>; the fields below are the ones the component reads.
  An entry of \<^verbatim>\<open>emotions\<close> is \<^verbatim>\<open>{ emotion: string; level: number }\<close>. Levels are
  modelled as integers (the intensities 0 to 100 of the data model); \<^verbatim>\<open>NaN\<close> and
  fractions are outside the model. The optional chaining \<^verbatim>\<open>?.emotions?.\<close> allows the
  field to be absent, hence the \<open>option\<close>.
\<close>

record emotion_entry =
  emotion :: string
  level :: int

record phi3_insights =
  emotions :: "emotion_entry list option"
  painPoints :: "string list"
  objections :: "string list"
  recommendations :: "string list"
  nextActions :: "string list"
  aiCoaching :: string
  callStage :: string

text \<open>
  \<^verbatim>\<open>Array.prototype.sort(compareFn)\<close> is a stable sort: \<open>a\<close> is placed before \<open>b\<close>
  when \<^verbatim>\<open>compareFn(a, b) < 0\<close>, and elements that compare equal keep their order.
  For a consistent comparator every stable sort gives the same list; the model is the
  stable insertion sort.
\<close>

fun insert_by :: "('a \<Rightarrow> 'a \<Rightarrow> int) \<Rightarrow> 'a \<Rightarrow> 'a list \<Rightarrow> 'a list" where
  "insert_by compareFn a [] = [a]"
| "insert_by compareFn a (b # bs) =
     (if compareFn a b \<le> 0 then a # b # bs else b # insert_by compareFn a bs)"

definition js_sort :: "('a \<Rightarrow> 'a \<Rightarrow> int) \<Rightarrow> 'a list \<Rightarrow> 'a list" where
  "js_sort compareFn xs = foldr (insert_by compareFn) xs []"

text \<open>
  \<^verbatim>\<open>phi3Insights?.emotions?.length > 0
    ? [...phi3Insights.emotions].sort((a, b) => b.level - a.level)[0].emotion
    : "Interested"\<close>
\<close>

definition currentEmotion :: "phi3_insights option \<Rightarrow> string" where
  "currentEmotion phi3Insights =
     (case phi3Insights of
        None \<Rightarrow> ''Interested''
      | Some p \<Rightarrow>
          (case emotions p of
             None \<Rightarrow> ''Interested''
           | Some es \<Rightarrow>
               if length es > 0
               then emotion (js_sort (\<lambda>a b. level b - level a) es ! 0)
               else ''Interested''))"

text \<open>
  \<^verbatim>\<open>phi3Insights?.emotions?.find(e => e.emotion === "Interest")?.level || 75\<close>:
  \<^verbatim>\<open>find\<close> gives the first matching entry or \<^verbatim>\<open>undefined\<close>; \<^verbatim>\<open>||\<close> takes the
  right operand when the left one is falsy, and the number 0 is falsy.
\<close>

definition clientInterest :: "phi3_insights option \<Rightarrow> int" where
  "clientInterest phi3Insights =
     (case phi3Insights of
        None \<Rightarrow> 75
      | Some p \<Rightarrow>
          (case emotions p of
             None \<Rightarrow> 75
           | Some es \<Rightarrow>
               (case find (\<lambda>e. emotion e = ''Interest'') es of
                  None \<Rightarrow> 75
                | Some e \<Rightarrow> if level e = 0 then 75 else level e)))"

text \<open>A published result used in the examples.\<close>

definition sample_insights :: "emotion_entry list \<Rightarrow> phi3_insights" where
  "sample_insights es =
     \<lparr>emotions = Some es, painPoints = [], objections = [], recommendations = [],
      nextActions = [], aiCoaching = '''', callStage = ''Discovery''\<rparr>"

section \<open>Index.tsx: the call session\<close>

subsection \<open>Media streams and the transcription client\<close>

text \<open>
  A \<^verbatim>\<open>MediaStream\<close> is the list of its tracks (\<^verbatim>\<open>getTracks()\<close>); a track has an
  identity and a kind. Whether a track is live or ended is state of the user agent and
  is kept in the world below.
\<close>

datatype track_kind = Video | Audio

datatype media_track = MediaStreamTrack (track_id: nat) (kind: track_kind)

datatype media_stream = MediaStream (getTracks: "media_track list")

definition getVideoTracks :: "media_stream \<Rightarrow> media_track list" where
  "getVideoTracks s = filter (\<lambda>t. kind t = Video) (getTracks s)"

text \<open>The value a rejected \<^verbatim>\<open>getDisplayMedia\<close> promise carries.\<close>

datatype error = AcquisitionError

datatype ConnectionState = Disconnected | Connecting | Connected | Reconnecting | Failed

text \<open>
  Modelled from the spec: the hook \<^verbatim>\<open>useTranscriptionWebSocket\<close>
  (\<^verbatim>\<open>@/hooks/useTranscriptionWebSocket\<close>), whose \<^verbatim>\<open>connect\<close> and \<^verbatim>\<open>disconnect\<close>
  the page calls, is not among the sources. By the state machine of the stream client,
  \<^verbatim>\<open>connect()\<close> takes \<open>Disconnected\<close> to \<open>Connecting\<close> and no other transition of
  \<^verbatim>\<open>connect()\<close> is listed; \<^verbatim>\<open>disconnect()\<close> takes every state to \<open>Disconnected\<close>.
\<close>

fun client_connect :: "ConnectionState \<Rightarrow> ConnectionState" where
  "client_connect Disconnected = Connecting"
| "client_connect c = c"

definition client_disconnect :: "ConnectionState \<Rightarrow> ConnectionState" where
  "client_disconnect c = Disconnected"

subsection \<open>State\<close>

text \<open>
  The \<^verbatim>\<open>useState\<close> cells of \<^verbatim>\<open>MeetingPage\<close> that the call controls read and write.
  A render binds them as constants; every function of the component body is created
  anew by each render and reads the constants of its own render. A value of this type
  is therefore both the current state and what one render's closures see.
\<close>

record session =
  isCallActive :: bool
  isMicOn :: bool
  isVideoOn :: bool
  isScreenSharing :: bool
  stream :: "media_stream option"

text \<open>
  An \<^verbatim>\<open>async\<close> handler runs to its \<^verbatim>\<open>await\<close> and is resumed when the promise
  settles. A suspended call of \<^verbatim>\<open>startScreenShare\<close> is recorded with the handler that
  awaits it and the render whose closure it is.
\<close>

datatype caller = FromToggleCall | FromToggleScreenShare

text \<open>
  The world: the component's current state, the transcription client, the ids of the
  tracks that have ended (by \<^verbatim>\<open>track.stop()\<close> or by the user agent), the
  \<^verbatim>\<open>onended\<close> handlers installed on tracks (each is \<^verbatim>\<open>() => stopScreenShare()\<close>
  of some render, kept as that render's state), the suspended \<^verbatim>\<open>startScreenShare\<close>
  calls, and the streams \<^verbatim>\<open>getDisplayMedia\<close> has handed out so far, oldest first.
\<close>

record world =
  sess :: session
  transcription :: ConnectionState
  ended :: "nat set"
  onended :: "nat \<rightharpoonup> session"
  pending :: "(caller \<times> session) list"
  acquired :: "media_stream list"

definition world0 :: world where
  "world0 =
     \<lparr>sess = \<lparr>isCallActive = False, isMicOn = False, isVideoOn = False,
              isScreenSharing = False, stream = None\<rparr>,
      transcription = Disconnected, ended = {}, onended = Map.empty, pending = [],
      acquired = []\<rparr>"

text \<open>The state setters, and the two calls on the transcription hook.\<close>

definition setIsCallActive :: "bool \<Rightarrow> world \<Rightarrow> world" where
  "setIsCallActive v w = w\<lparr>sess := (sess w)\<lparr>isCallActive := v\<rparr>\<rparr>"

definition setIsMicOn :: "bool \<Rightarrow> world \<Rightarrow> world" where
  "setIsMicOn v w = w\<lparr>sess := (sess w)\<lparr>isMicOn := v\<rparr>\<rparr>"

definition setIsVideoOn :: "bool \<Rightarrow> world \<Rightarrow> world" where
  "setIsVideoOn v w = w\<lparr>sess := (sess w)\<lparr>isVideoOn := v\<rparr>\<rparr>"

definition setIsScreenSharing :: "bool \<Rightarrow> world \<Rightarrow> world" where
  "setIsScreenSharing v w = w\<lparr>sess := (sess w)\<lparr>isScreenSharing := v\<rparr>\<rparr>"

definition setStream :: "media_stream option \<Rightarrow> world \<Rightarrow> world" where
  "setStream v w = w\<lparr>sess := (sess w)\<lparr>stream := v\<rparr>\<rparr>"

definition connectTranscription :: "world \<Rightarrow> world" where
  "connectTranscription w = w\<lparr>transcription := client_connect (transcription w)\<rparr>"

definition disconnectTranscription :: "world \<Rightarrow> world" where
  "disconnectTranscription w = w\<lparr>transcription := client_disconnect (transcription w)\<rparr>"

text \<open>\<^verbatim>\<open>track.stop()\<close>: the track ends; stopping an ended track changes nothing.\<close>

definition track_stop :: "media_track \<Rightarrow> world \<Rightarrow> world" where
  "track_stop t w = w\<lparr>ended := insert (track_id t) (ended w)\<rparr>"

subsection \<open>The handlers\<close>

text \<open>
  Every handler takes the state \<open>snap\<close> of the render that created it, which is what
  its free variables \<^verbatim>\<open>isCallActive\<close>, \<^verbatim>\<open>isScreenSharing\<close>, \<^verbatim>\<open>stream\<close>, ... denote,
  and the world it runs in. Setters write the world; reads never see them.

  \<^verbatim>\<open>stopScreenShare\<close>: stops every track of its render's \<^verbatim>\<open>stream\<close>, if any, then
  \<^verbatim>\<open>setStream(null); setIsScreenSharing(false)\<close>.
\<close>

definition stopScreenShare :: "session \<Rightarrow> world \<Rightarrow> world" where
  "stopScreenShare snap w =
     (let w1 = (case stream snap of
                  None \<Rightarrow> w
                | Some s \<Rightarrow> fold track_stop (getTracks s) w)
      in setIsScreenSharing False (setStream None w1))"

text \<open>
  \<^verbatim>\<open>startScreenShare\<close> up to its \<^verbatim>\<open>await\<close>: the capture is requested and the call
  suspends.
\<close>

definition startScreenShare :: "caller \<Rightarrow> session \<Rightarrow> world \<Rightarrow> world" where
  "startScreenShare c snap w = w\<lparr>pending := pending w @ [(c, snap)]\<rparr>"

text \<open>
  \<^verbatim>\<open>startScreenShare\<close> from its \<^verbatim>\<open>await\<close> on. A rejection is logged and thrown again.
  A stream is stored, \<^verbatim>\<open>isScreenSharing\<close> is set, and the first video track, if there
  is one, gets \<^verbatim>\<open>onended = () => { stopScreenShare(); }\<close>, where \<^verbatim>\<open>stopScreenShare\<close>
  is the one of the render that made this call.
\<close>

definition startScreenShare_resume ::
    "session \<Rightarrow> error + media_stream \<Rightarrow> world \<Rightarrow> error + media_stream \<times> world" where
  "startScreenShare_resume snap r w =
     (case r of
        Inl e \<Rightarrow> Inl e
      | Inr screenStream \<Rightarrow>
          let w1 = setIsScreenSharing True (setStream (Some screenStream) w);
              w2 = (case getVideoTracks screenStream of
                      [] \<Rightarrow> w1
                    | t # _ \<Rightarrow> w1\<lparr>onended := (onended w1)(track_id t \<mapsto> snap)\<rparr>)
          in Inr (screenStream, w2))"

text \<open>
  \<^verbatim>\<open>toggleCall\<close> up to the end of the stop branch, or up to the \<^verbatim>\<open>await\<close> of the
  start branch.
\<close>

definition toggleCall :: "session \<Rightarrow> world \<Rightarrow> world" where
  "toggleCall snap w =
     (if isCallActive snap then
        let w1 = setIsVideoOn False (setIsMicOn False (setIsCallActive False w));
            w2 = (if isScreenSharing snap then stopScreenShare snap w1 else w1)
        in disconnectTranscription w2
      else
        let w1 = connectTranscription (setIsMicOn True (setIsCallActive True w))
        in startScreenShare FromToggleCall snap w1)"

text \<open>
  The start branch of \<^verbatim>\<open>toggleCall\<close> from the \<^verbatim>\<open>await\<close> on: the \<^verbatim>\<open>catch\<close> logs what
  \<^verbatim>\<open>startScreenShare\<close> throws. The result is \<open>Inl\<close> when the handler itself throws.
\<close>

definition toggleCall_resume :: "session \<Rightarrow> error + media_stream \<Rightarrow> world \<Rightarrow> error + world" where
  "toggleCall_resume snap r w =
     (case startScreenShare_resume snap r w of
        Inl e \<Rightarrow> Inr w
      | Inr (screenStream, w') \<Rightarrow> Inr w')"

definition toggleMic :: "session \<Rightarrow> world \<Rightarrow> world" where
  "toggleMic snap w = setIsMicOn (\<not> isMicOn snap) w"

definition toggleVideo :: "session \<Rightarrow> world \<Rightarrow> world" where
  "toggleVideo snap w = setIsVideoOn (\<not> isVideoOn snap) w"

definition toggleScreenShare :: "session \<Rightarrow> world \<Rightarrow> world" where
  "toggleScreenShare snap w =
     (if isScreenSharing snap then stopScreenShare snap w
      else startScreenShare FromToggleScreenShare snap w)"

definition toggleScreenShare_resume ::
    "session \<Rightarrow> error + media_stream \<Rightarrow> world \<Rightarrow> error + world" where
  "toggleScreenShare_resume snap r w =
     (case startScreenShare_resume snap r w of
        Inl e \<Rightarrow> Inr w
      | Inr (screenStream, w') \<Rightarrow> Inr w')"

subsection \<open>Events\<close>

text \<open>
  What can happen to the page: a click on one of the four buttons, which runs the
  handler of the latest render; the settlement of a suspended capture request, which
  resumes the suspended call; and the end of a live track outside the page's control
  (the user agent's own "stop sharing"), which fires the track's \<^verbatim>\<open>onended\<close>.
  \<^verbatim>\<open>track.stop()\<close> fires no event, and an ended track does not end again.
\<close>

datatype event =
    ClickToggleCall
  | ClickToggleMic
  | ClickToggleVideo
  | ClickToggleScreenShare
  | AcquisitionSettled nat "error + media_stream"
  | TrackEnded nat

definition resume :: "caller \<Rightarrow> session \<Rightarrow> error + media_stream \<Rightarrow> world \<Rightarrow> error + world" where
  "resume c = (case c of
      FromToggleCall \<Rightarrow> toggleCall_resume
    | FromToggleScreenShare \<Rightarrow> toggleScreenShare_resume)"

definition track_ids :: "media_stream list \<Rightarrow> nat list" where
  "track_ids ss = concat (map (\<lambda>s. map track_id (getTracks s)) ss)"

fun step :: "event \<Rightarrow> world \<Rightarrow> world" where
  "step ClickToggleCall w = toggleCall (sess w) w"
| "step ClickToggleMic w = toggleMic (sess w) w"
| "step ClickToggleVideo w = toggleVideo (sess w) w"
| "step ClickToggleScreenShare w = toggleScreenShare (sess w) w"
| "step (AcquisitionSettled n r) w =
     (if n < length (pending w) then
        let (c, snap) = pending w ! n;
            w1 = w\<lparr>pending := take n (pending w) @ drop (Suc n) (pending w),
                   acquired := (case r of
                                  Inl e \<Rightarrow> acquired w
                                | Inr s \<Rightarrow> acquired w @ [s])\<rparr>
        in (case resume c snap r w1 of
              Inl e \<Rightarrow> w1
            | Inr w2 \<Rightarrow> w2)
      else w)"
| "step (TrackEnded i) w =
     (if i \<in> set (track_ids (acquired w)) \<and> i \<notin> ended w then
        let w1 = w\<lparr>ended := insert i (ended w)\<rparr>
        in (case onended w1 i of
              None \<Rightarrow> w1
            | Some snap \<Rightarrow> stopScreenShare snap w1)
      else w)"

fun run :: "world \<Rightarrow> event list \<Rightarrow> world" where
  "run w [] = w"
| "run w (e # es) = run (step e w) es"

text \<open>
  A stream is released when all its tracks have ended. The page is the single owner
  when every stream handed out so far is the one it holds or has been released.
\<close>

definition released :: "world \<Rightarrow> media_stream \<Rightarrow> bool" where
  "released w s = list_all (\<lambda>t. track_id t \<in> ended w) (getTracks s)"

definition single_owner :: "world \<Rightarrow> bool" where
  "single_owner w = list_all (\<lambda>s. stream (sess w) = Some s \<or> released w s) (acquired w)"

text \<open>
  Screen-share operations run one at a time: a click on the screen-share button whose
  capture request, if it makes one, settles with the given outcome before anything
  else happens, and a call of the latest render's \<^verbatim>\<open>stopScreenShare\<close>.
\<close>

datatype share_op = ToggleScreenShare "error + media_stream" | StopScreenShare

fun share_step :: "share_op \<Rightarrow> world \<Rightarrow> world" where
  "share_step (ToggleScreenShare r) w =
     (let w1 = step ClickToggleScreenShare w
      in if length (pending w) < length (pending w1)
         then step (AcquisitionSettled (length (pending w)) r) w1
         else w1)"
| "share_step StopScreenShare w = stopScreenShare (sess w) w"

text \<open>
  The two screen-share cells agree: \<^verbatim>\<open>isScreenSharing\<close> is set exactly when a
  stream is stored.
\<close>

definition consistent :: "world \<Rightarrow> bool" where
  "consistent w = (isScreenSharing (sess w) = (stream (sess w) \<noteq> None))"

definition share_inv :: "world \<Rightarrow> bool" where
  "share_inv w = (consistent w \<and> single_owner w)"

text \<open>Two captures used in the examples.\<close>

definition streamA :: media_stream where
  "streamA = MediaStream [MediaStreamTrack 1 Video, MediaStreamTrack 2 Audio]"

definition streamB :: media_stream where
  "streamB = MediaStream [MediaStreamTrack 3 Video, MediaStreamTrack 4 Audio]"

section \<open>Properties of the derived values\<close>

lemma set_insert_by: "set (insert_by c a bs) = insert a (set bs)"
  by (induction bs) auto

lemma set_js_sort: "set (js_sort c xs) = set xs"
  unfolding js_sort_def by (induction xs) (simp_all add: set_insert_by)

lemma length_insert_by: "length (insert_by c a bs) = Suc (length bs)"
  by (induction bs) simp_all

lemma length_js_sort: "length (js_sort c xs) = length xs"
  unfolding js_sort_def by (induction xs) (simp_all add: length_insert_by)

lemma descending_insert_by:
  "sorted_wrt (\<lambda>a b. level b \<le> level a) bs \<Longrightarrow>
   sorted_wrt (\<lambda>a b. level b \<le> level a) (insert_by (\<lambda>a b. level b - level a) x bs)"
  by (induction bs) (auto simp: set_insert_by)

lemma descending_js_sort:
  "sorted_wrt (\<lambda>a b. level b \<le> level a) (js_sort (\<lambda>a b. level b - level a) xs)"
  unfolding js_sort_def by (induction xs) (simp_all add: descending_insert_by)

lemma first_of_descending:
  assumes "sorted_wrt (\<lambda>a b. level b \<le> level a) ys" and "ys \<noteq> []" and "y \<in> set ys"
  shows "level y \<le> level (ys ! 0)"
  using assms by (cases ys) auto

lemma js_sort_first_maximal:
  assumes "es \<noteq> []"
  shows "js_sort (\<lambda>a b. level b - level a) es ! 0 \<in> set es"
    and "\<forall>e' \<in> set es. level e' \<le> level (js_sort (\<lambda>a b. level b - level a) es ! 0)"
proof -
  let ?ys = "js_sort (\<lambda>a b. level b - level a) es"
  have ne: "?ys \<noteq> []"
    using assms length_js_sort [of "\<lambda>a b. level b - level a" es] by auto
  then have "?ys ! 0 \<in> set ?ys"
    by (cases ?ys) simp_all
  then show "?ys ! 0 \<in> set es"
    by (simp add: set_js_sort)
  show "\<forall>e' \<in> set es. level e' \<le> level (?ys ! 0)"
    using first_of_descending [OF descending_js_sort ne] by (simp add: set_js_sort)
qed

text \<open>
  C7. For every published non-empty emotions list the displayed current emotion is the
  name of an entry of the list whose level no other entry exceeds; with no published
  result, an absent list or an empty list it is the default "Interested".
\<close>

theorem currentEmotion_highest_level:
  "(emotions p = Some es \<and> es \<noteq> [] \<longrightarrow>
      (\<exists>e \<in> set es. currentEmotion (Some p) = emotion e \<and> (\<forall>e' \<in> set es. level e' \<le> level e)))
   \<and> currentEmotion None = ''Interested''
   \<and> (emotions p = Some [] \<longrightarrow> currentEmotion (Some p) = ''Interested'')
   \<and> (emotions p = None \<longrightarrow> currentEmotion (Some p) = ''Interested'')"
proof -
  have "\<exists>e \<in> set es. currentEmotion (Some p) = emotion e \<and> (\<forall>e' \<in> set es. level e' \<le> level e)"
    if "emotions p = Some es" "es \<noteq> []"
  proof -
    have "currentEmotion (Some p) = emotion (js_sort (\<lambda>a b. level b - level a) es ! 0)"
      using that by (simp add: currentEmotion_def)
    with js_sort_first_maximal [OF that(2)] show ?thesis
      by blast
  qed
  then show ?thesis
    by (auto simp: currentEmotion_def)
qed

theorem currentEmotion_highest_level_witness:
  "currentEmotion (Some (sample_insights
      [\<lparr>emotion = ''Interest'', level = 40\<rparr>, \<lparr>emotion = ''Confusion'', level = 70\<rparr>,
       \<lparr>emotion = ''Satisfaction'', level = 70\<rparr>])) = ''Confusion''
   \<and> currentEmotion (Some (sample_insights [])) = ''Interested''"
  using currentEmotion_highest_level
    [of "sample_insights [\<lparr>emotion = ''Interest'', level = 40\<rparr>,
           \<lparr>emotion = ''Confusion'', level = 70\<rparr>, \<lparr>emotion = ''Satisfaction'', level = 70\<rparr>]"
        "[\<lparr>emotion = ''Interest'', level = 40\<rparr>, \<lparr>emotion = ''Confusion'', level = 70\<rparr>,
          \<lparr>emotion = ''Satisfaction'', level = 70\<rparr>]"]
  by (simp add: currentEmotion_def sample_insights_def js_sort_def)

text \<open>
  C8. The displayed client interest is the level of the first entry named "Interest"
  when there is one and its level is not 0, and 75 otherwise; an "Interest" entry of
  level 0 is displayed as 75, so the displayed value is never 0.
\<close>

theorem clientInterest_fallback:
  "clientInterest phi3Insights \<noteq> 0
   \<and> (emotions p = Some es \<and> find (\<lambda>e. emotion e = ''Interest'') es = Some e \<and> level e \<noteq> 0
        \<longrightarrow> clientInterest (Some p) = level e)
   \<and> (emotions p = Some es \<and> find (\<lambda>e. emotion e = ''Interest'') es = Some e \<and> level e = 0
        \<longrightarrow> clientInterest (Some p) = 75)
   \<and> (emotions p = Some es \<and> find (\<lambda>e. emotion e = ''Interest'') es = None
        \<longrightarrow> clientInterest (Some p) = 75)
   \<and> (emotions p = None \<longrightarrow> clientInterest (Some p) = 75)
   \<and> clientInterest None = 75"
  by (auto simp: clientInterest_def split: option.splits)

theorem clientInterest_fallback_witness:
  "clientInterest (Some (sample_insights
      [\<lparr>emotion = ''Confusion'', level = 25\<rparr>, \<lparr>emotion = ''Interest'', level = 0\<rparr>])) = 75
   \<and> clientInterest (Some (sample_insights
      [\<lparr>emotion = ''Confusion'', level = 25\<rparr>, \<lparr>emotion = ''Interest'', level = 60\<rparr>])) = 60"
  using clientInterest_fallback
    [of "Some (sample_insights [\<lparr>emotion = ''Confusion'', level = 25\<rparr>,
           \<lparr>emotion = ''Interest'', level = 0\<rparr>])"
        "sample_insights [\<lparr>emotion = ''Confusion'', level = 25\<rparr>,
           \<lparr>emotion = ''Interest'', level = 60\<rparr>]"
        "[\<lparr>emotion = ''Confusion'', level = 25\<rparr>, \<lparr>emotion = ''Interest'', level = 60\<rparr>]"
        "\<lparr>emotion = ''Interest'', level = 60\<rparr>"]
  by (simp add: clientInterest_def sample_insights_def)

section \<open>Properties of the call session\<close>

subsection \<open>Unfolding the handlers\<close>

lemmas setters =
  setIsCallActive_def setIsMicOn_def setIsVideoOn_def setIsScreenSharing_def setStream_def
  connectTranscription_def disconnectTranscription_def

lemma fold_track_stop:
  "fold track_stop ts w = w\<lparr>ended := track_id ` set ts \<union> ended w\<rparr>"
  by (induction ts arbitrary: w) (simp_all add: track_stop_def)

lemma stopScreenShare_eq:
  "stopScreenShare snap w =
     w\<lparr>sess := (sess w)\<lparr>stream := None, isScreenSharing := False\<rparr>,
       ended := (case stream snap of None \<Rightarrow> {} | Some s \<Rightarrow> track_id ` set (getTracks s))
                  \<union> ended w\<rparr>"
  by (simp add: stopScreenShare_def setters fold_track_stop split: option.splits)

lemmas run_defs =
  world0_def toggleCall_def toggleMic_def toggleVideo_def toggleScreenShare_def
  startScreenShare_def startScreenShare_resume_def toggleCall_resume_def
  toggleScreenShare_resume_def resume_def stopScreenShare_eq setters getVideoTracks_def
  track_ids_def client_disconnect_def Let_def streamA_def streamB_def

subsection \<open>The screen-share cells stay consistent\<close>

lemma consistent_stopScreenShare: "consistent (stopScreenShare snap w)"
  by (simp add: consistent_def stopScreenShare_eq)

lemma consistent_resume:
  "consistent w \<Longrightarrow> resume c snap r w = Inr w' \<Longrightarrow> consistent w'"
  by (cases c; cases r)
     (auto simp: resume_def toggleCall_resume_def toggleScreenShare_resume_def
        startScreenShare_resume_def setters consistent_def Let_def split: list.splits)

lemma resume_never_throws: "\<exists>w'. resume c snap r w = Inr w'"
  by (cases c; cases r)
     (auto simp: resume_def toggleCall_resume_def toggleScreenShare_resume_def
        startScreenShare_resume_def Let_def split: list.splits)

lemma consistent_step: "consistent w \<Longrightarrow> consistent (step e w)"
proof (cases e)
  case ClickToggleCall
  assume "consistent w"
  then show ?thesis
    by (simp add: ClickToggleCall toggleCall_def startScreenShare_def stopScreenShare_eq
        setters consistent_def Let_def)
next
  case ClickToggleMic
  assume "consistent w"
  then show ?thesis
    by (simp add: ClickToggleMic toggleMic_def setters consistent_def)
next
  case ClickToggleVideo
  assume "consistent w"
  then show ?thesis
    by (simp add: ClickToggleVideo toggleVideo_def setters consistent_def)
next
  case ClickToggleScreenShare
  assume "consistent w"
  then show ?thesis
    by (simp add: ClickToggleScreenShare toggleScreenShare_def startScreenShare_def
        stopScreenShare_eq consistent_def)
next
  case (AcquisitionSettled n r)
  assume c: "consistent w"
  show ?thesis
  proof (cases "n < length (pending w)")
    case False
    with c show ?thesis by (simp add: AcquisitionSettled)
  next
    case True
    obtain cl snap where p: "pending w ! n = (cl, snap)"
      by (cases "pending w ! n")
    let ?w1 = "w\<lparr>pending := take n (pending w) @ drop (Suc n) (pending w),
                  acquired := (case r of Inl e \<Rightarrow> acquired w | Inr s \<Rightarrow> acquired w @ [s])\<rparr>"
    have c1: "consistent ?w1"
      using c by (simp add: consistent_def)
    obtain w2 where r: "resume cl snap r ?w1 = Inr w2"
      using resume_never_throws by blast
    have "step e w = w2"
      using True p r by (simp add: AcquisitionSettled)
    with consistent_resume [OF c1 r] show ?thesis by simp
  qed
next
  case (TrackEnded i)
  assume "consistent w"
  then show ?thesis
    by (simp add: TrackEnded stopScreenShare_eq Let_def consistent_def
        split: option.splits)
qed

lemma consistent_run: "consistent w \<Longrightarrow> consistent (run w es)"
  by (induction es arbitrary: w) (simp_all add: consistent_step)

lemma consistent_world0: "consistent world0"
  by (simp add: consistent_def world0_def)

subsection \<open>Ending the call\<close>

text \<open>
  C1. In every state the page can reach from its initial state, by any sequence of
  clicks, settled capture requests and ended tracks, in which the call is active, a
  click on the call button (the stop branch of \<^verbatim>\<open>toggleCall\<close>) leaves
  \<^verbatim>\<open>isCallActive\<close>, \<^verbatim>\<open>isMicOn\<close>, \<^verbatim>\<open>isVideoOn\<close> and \<^verbatim>\<open>isScreenSharing\<close> false, the
  transcription client disconnected and no stream stored, and every track of the
  stream that was stored before the click has ended.
\<close>

theorem stop_drives_all_inactive:
  assumes "w = run world0 evs" and "isCallActive (sess w)"
  shows "let w' = step ClickToggleCall w in
           \<not> isCallActive (sess w') \<and> \<not> isMicOn (sess w') \<and> \<not> isVideoOn (sess w')
         \<and> \<not> isScreenSharing (sess w') \<and> stream (sess w') = None
         \<and> transcription w' = Disconnected
         \<and> (\<forall>s. stream (sess w) = Some s \<longrightarrow> (\<forall>t \<in> set (getTracks s). track_id t \<in> ended w'))"
proof -
  have "consistent w"
    using assms(1) consistent_run [OF consistent_world0] by simp
  with assms(2) show ?thesis
    by (auto simp: toggleCall_def stopScreenShare_eq setters consistent_def Let_def
        client_disconnect_def)
qed

theorem stop_drives_all_inactive_witness:
  "isCallActive (sess (run world0
      [ClickToggleCall, AcquisitionSettled 0 (Inr streamA), ClickToggleMic, ClickToggleVideo]))
   \<and> stream (sess (run world0
      [ClickToggleCall, AcquisitionSettled 0 (Inr streamA), ClickToggleMic, ClickToggleVideo]))
       = Some streamA
   \<and> stream (sess (run world0
      [ClickToggleCall, AcquisitionSettled 0 (Inr streamA), ClickToggleMic, ClickToggleVideo,
       ClickToggleCall])) = None
   \<and> ended (run world0
      [ClickToggleCall, AcquisitionSettled 0 (Inr streamA), ClickToggleMic, ClickToggleVideo,
       ClickToggleCall]) = {1, 2}"
  using stop_drives_all_inactive
    [of "run world0 [ClickToggleCall, AcquisitionSettled 0 (Inr streamA), ClickToggleMic,
           ClickToggleVideo]"
        "[ClickToggleCall, AcquisitionSettled 0 (Inr streamA), ClickToggleMic, ClickToggleVideo]"]
  by (simp add: run_defs)

subsection \<open>A capture that arrives after the call has ended\<close>

text \<open>
  C2, as stated, does not hold. Start the call, end it while the capture request is
  still open, then let the request resolve with \<open>streamA\<close>: the call is inactive, yet
  \<open>streamA\<close> is stored, \<^verbatim>\<open>isScreenSharing\<close> is true and no track has been stopped.
\<close>

theorem late_acquisition_counterexample:
  "\<not> isCallActive (sess (run world0
       [ClickToggleCall, ClickToggleCall, AcquisitionSettled 0 (Inr streamA)]))
   \<and> stream (sess (run world0
       [ClickToggleCall, ClickToggleCall, AcquisitionSettled 0 (Inr streamA)])) = Some streamA
   \<and> isScreenSharing (sess (run world0
       [ClickToggleCall, ClickToggleCall, AcquisitionSettled 0 (Inr streamA)]))
   \<and> ended (run world0
       [ClickToggleCall, ClickToggleCall, AcquisitionSettled 0 (Inr streamA)]) = {}"
  by (simp add: run_defs)

text \<open>
  C2, amended. If the call is started and then ended before the capture request of the
  start resolves, then when the request resolves with a stream the resumed
  \<^verbatim>\<open>startScreenShare\<close> stores that stream and sets \<^verbatim>\<open>isScreenSharing\<close>, stops none of
  its tracks, and leaves \<^verbatim>\<open>isCallActive\<close> false: the late capture is retained.
\<close>

theorem late_acquisition_is_retained:
  assumes "\<not> isCallActive (sess w)"
  shows "let w1 = step ClickToggleCall w;
             w2 = step ClickToggleCall w1;
             w3 = step (AcquisitionSettled (length (pending w)) (Inr s)) w2
         in isCallActive (sess w1) \<and> \<not> isCallActive (sess w2) \<and> \<not> isCallActive (sess w3)
          \<and> stream (sess w3) = Some s \<and> isScreenSharing (sess w3)
          \<and> ended w3 = ended w2"
  using assms
  by (simp add: toggleCall_def startScreenShare_def startScreenShare_resume_def
      toggleCall_resume_def resume_def stopScreenShare_eq setters Let_def nth_append
      split: list.splits)

theorem late_acquisition_is_retained_witness:
  "\<not> isCallActive (sess world0)
   \<and> stream (sess (step (AcquisitionSettled 0 (Inr streamB))
        (step ClickToggleCall (step ClickToggleCall world0)))) = Some streamB
   \<and> ended (step (AcquisitionSettled 0 (Inr streamB))
        (step ClickToggleCall (step ClickToggleCall world0))) = {}"
  using late_acquisition_is_retained [of world0 streamB]
  by (simp add: run_defs)

subsection \<open>Starting again after the call has ended\<close>

text \<open>
  C3, as stated, does not hold. The page has no state for an ended call: after a start
  and a stop, a third click on the call button makes the same page active again.
\<close>

theorem ended_session_counterexample:
  "isCallActive (sess (run world0 [ClickToggleCall]))
   \<and> \<not> isCallActive (sess (run world0 [ClickToggleCall, ClickToggleCall]))
   \<and> isCallActive (sess (run world0 [ClickToggleCall, ClickToggleCall, ClickToggleCall]))"
  by (simp add: run_defs)

text \<open>
  C3, amended. The session has the two states that \<^verbatim>\<open>isCallActive\<close> tells apart, and
  \<^verbatim>\<open>toggleCall\<close> inverts \<^verbatim>\<open>isCallActive\<close> in every state. So after a stop has made an
  active session inactive, the next \<^verbatim>\<open>toggleCall\<close> makes the same session active
  again: \<^verbatim>\<open>isCallActive\<close> and \<^verbatim>\<open>isMicOn\<close> are true, the transcription client has been
  asked to connect, and a new capture request is open.
\<close>

theorem toggleCall_alternates:
  "isCallActive (sess (step ClickToggleCall w)) = (\<not> isCallActive (sess w))
   \<and> (isCallActive (sess w) \<longrightarrow>
        (let w1 = step ClickToggleCall w; w2 = step ClickToggleCall w1
         in \<not> isCallActive (sess w1) \<and> isCallActive (sess w2) \<and> isMicOn (sess w2)
          \<and> transcription w2 = Connecting
          \<and> pending w2 = pending w @ [(FromToggleCall, sess w1)]))"
  by (simp add: toggleCall_def startScreenShare_def stopScreenShare_eq setters Let_def
      client_disconnect_def)

theorem toggleCall_alternates_witness:
  "isCallActive (sess (step ClickToggleCall world0))
   \<and> isCallActive (sess (step ClickToggleCall (step ClickToggleCall
        (step ClickToggleCall world0))))
   \<and> transcription (step ClickToggleCall (step ClickToggleCall
        (step ClickToggleCall world0))) = Connecting"
  using toggleCall_alternates [of "step ClickToggleCall world0"]
  by (simp add: run_defs)

subsection \<open>A capture request that fails\<close>

text \<open>
  C4. When the capture request made by the start branch of \<^verbatim>\<open>toggleCall\<close> is rejected,
  the resumed handler catches the error and returns normally, in whatever state it is
  resumed. Started from an inactive session, the session is then active:
  \<^verbatim>\<open>isCallActive\<close> and \<^verbatim>\<open>isMicOn\<close> are true, the transcription client has been asked
  to connect, and the screen-share cells, the video flag, the tracks and the open
  requests are as they were before the start; with no screen share before the start
  there is none after it.
\<close>

theorem acquisition_failure_is_caught:
  "toggleCall_resume snap (Inl e) w = Inr w
   \<and> (\<not> isCallActive (sess w) \<longrightarrow>
        (let w1 = step ClickToggleCall w;
             w2 = step (AcquisitionSettled (length (pending w)) (Inl e)) w1
         in isCallActive (sess w2) \<and> isMicOn (sess w2)
          \<and> transcription w2 = client_connect (transcription w)
          \<and> isVideoOn (sess w2) = isVideoOn (sess w)
          \<and> isScreenSharing (sess w2) = isScreenSharing (sess w)
          \<and> stream (sess w2) = stream (sess w)
          \<and> ended w2 = ended w \<and> acquired w2 = acquired w \<and> pending w2 = pending w))"
  by (simp add: toggleCall_def startScreenShare_def startScreenShare_resume_def
      toggleCall_resume_def resume_def setters Let_def nth_append)

theorem acquisition_failure_is_caught_witness:
  "\<not> isCallActive (sess world0)
   \<and> sess (run world0 [ClickToggleCall, AcquisitionSettled 0 (Inl AcquisitionError)])
     = \<lparr>isCallActive = True, isMicOn = True, isVideoOn = False, isScreenSharing = False,
        stream = None\<rparr>
   \<and> transcription (run world0 [ClickToggleCall, AcquisitionSettled 0 (Inl AcquisitionError)])
     = Connecting"
  using acquisition_failure_is_caught [of "sess world0" AcquisitionError world0]
  by (simp add: run_defs)

subsection \<open>The track's own end\<close>

text \<open>
  C5 at a concrete run. The screen-share button is clicked on the initial page and the
  request resolves with \<open>streamA\<close>, a video track 1 and an audio track 2. The handler
  installed on track 1 is \<^verbatim>\<open>stopScreenShare\<close> of the render of the click, whose
  \<^verbatim>\<open>stream\<close> is \<^verbatim>\<open>null\<close>. When track 1 ends, \<^verbatim>\<open>isScreenSharing\<close> becomes false and
  the stored stream is cleared, but the handler stops no track: track 2 of the stream
  that was held has not ended.
\<close>

theorem onended_leaves_audio_track_live:
  "stream (sess (run world0 [ClickToggleScreenShare, AcquisitionSettled 0 (Inr streamA)]))
     = Some streamA
   \<and> onended (run world0 [ClickToggleScreenShare, AcquisitionSettled 0 (Inr streamA)]) 1
     = Some (sess world0)
   \<and> \<not> isScreenSharing (sess (run world0
        [ClickToggleScreenShare, AcquisitionSettled 0 (Inr streamA), TrackEnded 1]))
   \<and> stream (sess (run world0
        [ClickToggleScreenShare, AcquisitionSettled 0 (Inr streamA), TrackEnded 1])) = None
   \<and> 2 \<notin> ended (run world0
        [ClickToggleScreenShare, AcquisitionSettled 0 (Inr streamA), TrackEnded 1])"
  by (simp add: run_defs)

subsection \<open>Single ownership of the capture\<close>

text \<open>
  C6, as stated, does not hold. \<^verbatim>\<open>startScreenShare\<close> stops nothing before it stores a
  new stream. With \<open>streamA\<close> held after a click on the screen-share button, starting
  the call calls \<^verbatim>\<open>startScreenShare\<close> again; when it resolves with \<open>streamB\<close>, that
  stream replaces \<open>streamA\<close>, none of whose tracks has ended. The same happens when
  the screen-share button is clicked twice before the first request resolves.
\<close>

theorem single_owner_counterexample:
  "stream (sess (run world0
       [ClickToggleScreenShare, AcquisitionSettled 0 (Inr streamA),
        ClickToggleCall, AcquisitionSettled 0 (Inr streamB)])) = Some streamB
   \<and> acquired (run world0
       [ClickToggleScreenShare, AcquisitionSettled 0 (Inr streamA),
        ClickToggleCall, AcquisitionSettled 0 (Inr streamB)]) = [streamA, streamB]
   \<and> ended (run world0
       [ClickToggleScreenShare, AcquisitionSettled 0 (Inr streamA),
        ClickToggleCall, AcquisitionSettled 0 (Inr streamB)]) = {}
   \<and> \<not> single_owner (run world0
       [ClickToggleScreenShare, AcquisitionSettled 0 (Inr streamA),
        ClickToggleCall, AcquisitionSettled 0 (Inr streamB)])
   \<and> \<not> single_owner (run world0
       [ClickToggleScreenShare, ClickToggleScreenShare,
        AcquisitionSettled 0 (Inr streamA), AcquisitionSettled 0 (Inr streamB)])"
  by (simp add: run_defs single_owner_def released_def)

lemma released_mono: "released w s \<Longrightarrow> ended w \<subseteq> ended w' \<Longrightarrow> released w' s"
  by (auto simp: released_def list_all_iff)

lemma share_inv_stop:
  assumes "share_inv w"
  shows "share_inv (stopScreenShare (sess w) w)"
proof -
  let ?w' = "stopScreenShare (sess w) w"
  have "released ?w' s" if "s \<in> set (acquired w)" for s
  proof (cases "stream (sess w) = Some s")
    case True
    then show ?thesis
      by (simp add: released_def list_all_iff stopScreenShare_eq)
  next
    case False
    with assms that have "released w s"
      by (auto simp: share_inv_def single_owner_def list_all_iff)
    then show ?thesis
      by (rule released_mono) (simp add: stopScreenShare_eq)
  qed
  then have "single_owner ?w'"
    by (simp add: single_owner_def list_all_iff stopScreenShare_eq)
  then show ?thesis
    by (simp add: share_inv_def consistent_stopScreenShare)
qed

lemma share_inv_toggle:
  assumes "share_inv w"
  shows "share_inv (share_step (ToggleScreenShare r) w)"
proof (cases "isScreenSharing (sess w)")
  case True
  then have "share_step (ToggleScreenShare r) w = stopScreenShare (sess w) w"
    by (simp add: toggleScreenShare_def stopScreenShare_eq)
  with share_inv_stop [OF assms] show ?thesis by simp
next
  case False
  with assms have idle: "stream (sess w) = None"
    and rel: "\<forall>s \<in> set (acquired w). released w s"
    by (auto simp: share_inv_def consistent_def single_owner_def list_all_iff)
  show ?thesis
  proof (cases r)
    case (Inl e)
    with False have "share_step (ToggleScreenShare r) w = w"
      by (cases w)
         (simp add: toggleScreenShare_def startScreenShare_def startScreenShare_resume_def
           toggleScreenShare_resume_def resume_def Let_def nth_append)
    with assms show ?thesis by simp
  next
    case (Inr s)
    with False idle rel show ?thesis
      by (auto simp: toggleScreenShare_def startScreenShare_def startScreenShare_resume_def
          toggleScreenShare_resume_def resume_def setters Let_def nth_append share_inv_def
          consistent_def single_owner_def released_def list_all_iff split: list.splits)
  qed
qed

lemma share_inv_step: "share_inv w \<Longrightarrow> share_inv (share_step op w)"
  by (cases op) (simp_all add: share_inv_toggle share_inv_stop del: share_step.simps(1))

lemma share_inv_fold: "share_inv w \<Longrightarrow> share_inv (fold share_step ops w)"
  by (induction ops arbitrary: w) (simp_all add: share_inv_step)

lemma share_inv_world0: "share_inv world0"
  by (simp add: share_inv_def consistent_def single_owner_def world0_def)

text \<open>
  C6, amended. Over every sequence of screen-share operations run one at a time from
  the initial page (clicks on the screen-share button, each capture request settling
  before the next operation, and calls of the latest render's \<^verbatim>\<open>stopScreenShare\<close>)
  the page is the single owner: every stream handed out is the stored one or has all
  its tracks ended, and \<^verbatim>\<open>toggleScreenShare\<close> requests a new capture only when no
  stream is stored and every stream handed out before has all its tracks ended.
\<close>

theorem settled_toggles_single_owner:
  "let w = fold share_step ops world0 in
     single_owner w
   \<and> (isScreenSharing (sess w) = (stream (sess w) \<noteq> None))
   \<and> (length (pending w) < length (pending (step ClickToggleScreenShare w))
        \<longrightarrow> stream (sess w) = None \<and> list_all (released w) (acquired w))"
proof -
  let ?w = "fold share_step ops world0"
  have inv: "share_inv ?w"
    by (rule share_inv_fold [OF share_inv_world0])
  then have a: "single_owner ?w" and b: "isScreenSharing (sess ?w) = (stream (sess ?w) \<noteq> None)"
    by (simp_all add: share_inv_def consistent_def)
  have "stream (sess ?w) = None \<and> list_all (released ?w) (acquired ?w)"
    if "length (pending ?w) < length (pending (step ClickToggleScreenShare ?w))"
  proof -
    have "\<not> isScreenSharing (sess ?w)"
      using that by (auto simp: toggleScreenShare_def stopScreenShare_eq split: if_splits)
    with a b show ?thesis
      by (auto simp: single_owner_def list_all_iff)
  qed
  with a b show ?thesis
    by (simp add: Let_def)
qed

theorem settled_toggles_single_owner_witness:
  "length (pending (fold share_step
       [ToggleScreenShare (Inr streamA), ToggleScreenShare (Inl AcquisitionError)] world0))
     < length (pending (step ClickToggleScreenShare (fold share_step
       [ToggleScreenShare (Inr streamA), ToggleScreenShare (Inl AcquisitionError)] world0)))
   \<and> acquired (fold share_step
       [ToggleScreenShare (Inr streamA), ToggleScreenShare (Inl AcquisitionError)] world0)
       = [streamA]
   \<and> released (fold share_step
       [ToggleScreenShare (Inr streamA), ToggleScreenShare (Inl AcquisitionError)] world0) streamA
   \<and> single_owner (fold share_step
       [ToggleScreenShare (Inr streamA), ToggleScreenShare (Inl AcquisitionError),
        ToggleScreenShare (Inr streamB)] world0)"
  using settled_toggles_single_owner
    [of "[ToggleScreenShare (Inr streamA), ToggleScreenShare (Inl AcquisitionError)]"]
    settled_toggles_single_owner
    [of "[ToggleScreenShare (Inr streamA), ToggleScreenShare (Inl AcquisitionError),
          ToggleScreenShare (Inr streamB)]"]
  by (simp add: run_defs single_owner_def released_def)

subsection \<open>The microphone and video flags\<close>

text \<open>
  C9. In every state, whether or not a call is active, a click on the microphone
  button inverts \<^verbatim>\<open>isMicOn\<close> and changes nothing else, and a click on the video button
  inverts \<^verbatim>\<open>isVideoOn\<close> and changes nothing else: \<^verbatim>\<open>isCallActive\<close>,
  \<^verbatim>\<open>isScreenSharing\<close>, the stored stream and the other flag are as before.
\<close>

theorem toggleMic_toggleVideo_frame:
  "step ClickToggleMic w = w\<lparr>sess := (sess w)\<lparr>isMicOn := \<not> isMicOn (sess w)\<rparr>\<rparr>
   \<and> step ClickToggleVideo w = w\<lparr>sess := (sess w)\<lparr>isVideoOn := \<not> isVideoOn (sess w)\<rparr>\<rparr>
   \<and> isMicOn (sess (step ClickToggleMic w)) = (\<not> isMicOn (sess w))
   \<and> isCallActive (sess (step ClickToggleMic w)) = isCallActive (sess w)
   \<and> isVideoOn (sess (step ClickToggleMic w)) = isVideoOn (sess w)
   \<and> isScreenSharing (sess (step ClickToggleMic w)) = isScreenSharing (sess w)
   \<and> stream (sess (step ClickToggleMic w)) = stream (sess w)
   \<and> isVideoOn (sess (step ClickToggleVideo w)) = (\<not> isVideoOn (sess w))
   \<and> isCallActive (sess (step ClickToggleVideo w)) = isCallActive (sess w)
   \<and> isMicOn (sess (step ClickToggleVideo w)) = isMicOn (sess w)
   \<and> isScreenSharing (sess (step ClickToggleVideo w)) = isScreenSharing (sess w)
   \<and> stream (sess (step ClickToggleVideo w)) = stream (sess w)"
  by (simp add: toggleMic_def toggleVideo_def setters)

theorem toggleMic_toggleVideo_frame_witness:
  "sess (step ClickToggleMic world0) = (sess world0)\<lparr>isMicOn := True\<rparr>
   \<and> sess (step ClickToggleVideo (run world0 [ClickToggleCall, ClickToggleCall]))
      = (sess world0)\<lparr>isVideoOn := True\<rparr>"
  using toggleMic_toggleVideo_frame [of world0]
    toggleMic_toggleVideo_frame [of "run world0 [ClickToggleCall, ClickToggleCall]"]
  by (simp add: run_defs)

subsection \<open>Stopping twice\<close>

text \<open>
  C10. \<^verbatim>\<open>stopScreenShare\<close> called with no stream stored and \<^verbatim>\<open>isScreenSharing\<close> false
  changes nothing; whenever its render's \<^verbatim>\<open>stream\<close> is \<^verbatim>\<open>null\<close> it stops no track and
  leaves no stream stored and \<^verbatim>\<open>isScreenSharing\<close> false. In every state, calling it
  twice, from the latest render each time or twice from the same render, gives the
  state that calling it once gives.
\<close>

theorem stopScreenShare_idempotent:
  "(stream (sess w) = None \<and> \<not> isScreenSharing (sess w) \<longrightarrow> stopScreenShare (sess w) w = w)
   \<and> (stream snap = None \<longrightarrow>
        stream (sess (stopScreenShare snap w)) = None
      \<and> \<not> isScreenSharing (sess (stopScreenShare snap w))
      \<and> ended (stopScreenShare snap w) = ended w)
   \<and> (let w1 = stopScreenShare (sess w) w in stopScreenShare (sess w1) w1 = w1)
   \<and> stopScreenShare snap (stopScreenShare snap w) = stopScreenShare snap w"
proof -
  have "stopScreenShare (sess w) w = w" if "stream (sess w) = None" "\<not> isScreenSharing (sess w)"
    using that by (cases w; cases "sess w") (simp add: stopScreenShare_eq)
  moreover have "stopScreenShare snap (stopScreenShare snap w) = stopScreenShare snap w"
    by (simp add: stopScreenShare_eq Un_left_absorb)
  moreover have "let w1 = stopScreenShare (sess w) w in stopScreenShare (sess w1) w1 = w1"
    by (simp add: stopScreenShare_eq Let_def)
  ultimately show ?thesis
    by (simp add: stopScreenShare_eq)
qed

theorem stopScreenShare_idempotent_witness:
  "stream (sess world0) = None \<and> \<not> isScreenSharing (sess world0)
   \<and> stopScreenShare (sess world0) world0 = world0
   \<and> ended (stopScreenShare
        (sess (run world0 [ClickToggleScreenShare, AcquisitionSettled 0 (Inr streamA)]))
        (run world0 [ClickToggleScreenShare, AcquisitionSettled 0 (Inr streamA)])) = {1, 2}"
  using stopScreenShare_idempotent [of world0 "sess world0"]
  by (simp add: run_defs)

end
